theory Spec2Isabelle
  imports Main "HOL-Library.Multiset"
begin

section \<open>Python values used by rss\_reader.py\<close>

text \<open>
  A Python \<open>str\<close> is a sequence of Unicode code points, so it is modelled as a list of
  natural numbers (one per code point). \<open>ustr\<close> embeds an ASCII literal.
\<close>

type_synonym str = "nat list"

definition ustr :: "string \<Rightarrow> str" where
  "ustr s = map of_char s"

text \<open>
  The characters that \<open>\s\<close> matches in a \<open>str\<close> pattern and that \<open>str.strip()\<close> removes:
  both use CPython's Unicode whitespace table (U+0009..U+000D, U+001C..U+0020, U+0085,
  U+00A0, U+1680, U+2000..U+200A, U+2028, U+2029, U+202F, U+205F, U+3000).
\<close>

definition isspace :: "nat \<Rightarrow> bool" where
  "isspace c \<longleftrightarrow>
     (9 \<le> c \<and> c \<le> 13) \<or> (28 \<le> c \<and> c \<le> 32) \<or> c = 133 \<or> c = 160 \<or> c = 5760 \<or>
     (8192 \<le> c \<and> c \<le> 8202) \<or> c = 8232 \<or> c = 8233 \<or> c = 8239 \<or> c = 8287 \<or> c = 12288"

text \<open>
  \<open>re.sub(r'\s+', ' ', s)\<close>: scanning from the left, every leftmost-longest match of
  \<open>\s+\<close> (a maximal run of whitespace) is replaced by one space (code point 32).
\<close>

function re_sub_ws :: "str \<Rightarrow> str" where
  "re_sub_ws [] = []"
| "re_sub_ws (c # cs) =
     (if isspace c then 32 # re_sub_ws (dropWhile isspace cs) else c # re_sub_ws cs)"
  by pat_completeness auto
termination
  by (relation "measure length") (auto simp: length_dropWhile_le less_Suc_eq_le)

text \<open>\<open>s.strip()\<close>: leading and trailing whitespace removed.\<close>

definition strip :: "str \<Rightarrow> str" where
  "strip s = rev (dropWhile isspace (rev (dropWhile isspace s)))"

text \<open>
  Exceptions are values. Every constructor stands for a subclass of Python's \<open>Exception\<close>,
  so the handler \<open>except Exception\<close> of \<open>load_feeds\<close> catches each of them;
  \<open>except FileNotFoundError\<close> catches only the first.
\<close>

datatype exn =
    FileNotFoundError
  | PermissionError
  | IndexError
  | KeyError
  | OverflowError
  | FeatureNotFound
  | URLError

text \<open>
  \<open>xs[i]\<close> on a Python list: a negative index counts from the end, an index out of
  range raises \<open>IndexError\<close>.
\<close>

definition getitem :: "'a list \<Rightarrow> int \<Rightarrow> exn + 'a" where
  "getitem xs i =
     (if 0 \<le> i \<and> i < int (length xs) then Inr (xs ! nat i)
      else if i < 0 \<and> - int (length xs) \<le> i then Inr (xs ! nat (int (length xs) + i))
      else Inl IndexError)"

text \<open>
  \<open>sorted(xs, key=f, reverse=True)\<close>: CPython reverses the list, runs its stable sort
  in ascending key order and reverses the result, which is how \<open>reverse=True\<close> keeps
  elements with equal keys in their original order. \<open>sort_key\<close> is the stable insertion sort
  of the list library.
\<close>

definition sorted_reverse :: "('a \<Rightarrow> 'k::linorder) \<Rightarrow> 'a list \<Rightarrow> 'a list" where
  "sorted_reverse f xs = rev (sort_key f (rev xs))"

section \<open>The parsed markup tree (BeautifulSoup)\<close>

text \<open>
  What \<open>BeautifulSoup(html_content, "lxml")\<close> returns: a tree of tags (name, children),
  text nodes (\<open>NavigableString\<close>) and string nodes of other classes (\<open>Comment\<close> stands for
  the classes that \<open>get_text\<close> leaves out). The soup object itself is a tag named
  \<open>[document]\<close>.
\<close>

datatype node =
    Tag str "node list"
  | NavigableString str
  | Comment str

text \<open>\<open>tag.descendants\<close>: all nodes below a tag, in document order (pre-order).\<close>

fun descendants :: "node \<Rightarrow> node list" where
  "descendants (Tag n cs) = concat (map (\<lambda>c. c # descendants c) cs)"
| "descendants (NavigableString s) = []"
| "descendants (Comment s) = []"

fun is_tag_named :: "str \<Rightarrow> node \<Rightarrow> bool" where
  "is_tag_named name (Tag n cs) = (n = name)"
| "is_tag_named name (NavigableString s) = False"
| "is_tag_named name (Comment s) = False"

text \<open>
  \<open>tag.find(name)\<close>: the first descendant, in document order, that is a tag of that
  name; \<open>None\<close> when there is none.
\<close>

definition soup_find :: "str \<Rightarrow> node \<Rightarrow> node option" where
  "soup_find name nd = List.find (is_tag_named name) (descendants nd)"

fun string_of :: "node \<Rightarrow> str" where
  "string_of (NavigableString s) = s"
| "string_of (Tag n cs) = []"
| "string_of (Comment s) = []"

text \<open>
  \<open>tag.get_text()\<close> with its default arguments: the strings of all descendant text nodes,
  in document order, joined with the empty separator.
\<close>

definition get_text :: "node \<Rightarrow> str" where
  "get_text nd =
     (case nd of
        NavigableString s \<Rightarrow> s
      | _ \<Rightarrow> concat (map string_of (descendants nd)))"

section \<open>Feeds, stories and the outside world\<close>

text \<open>
  A naive \<open>datetime\<close> is totally ordered; it is modelled by its position on the time line
  (an integer count of microseconds). \<open>struct_time\<close> is Python's nine-integer tuple.
\<close>

type_synonym datetime = int
type_synonym struct_time = "int list"

text \<open>
  One entry of \<open>parsed.entries\<close>. A field is \<open>None\<close> when the key is missing from the
  dictionary. \<open>entry_content\<close> is the list under \<open>'content'\<close>; each element is a dictionary,
  given by the value under its key \<open>'value'\<close> (\<open>None\<close> when that key is missing).
  \<open>now_reading\<close> is what \<open>datetime.now()\<close> returns if it is called while this entry is
  processed.
\<close>

record entry =
  entry_content :: "str option list option"
  entry_summary :: "str option"
  entry_title :: "str option"
  published_parsed :: "struct_time option"
  updated_parsed :: "struct_time option"
  now_reading :: datetime

record feed =
  feed_title :: "str option"
  entries :: "entry list"

text \<open>The dictionary appended to \<open>all_entries\<close>, with its four keys.\<close>

record story =
  title :: str
  date :: datetime
  source :: str
  body :: str

text \<open>
  The capabilities the program calls and does not implement: reading the lines of a text
  file (\<open>open(path, 'r')\<close> and iteration), \<open>feedparser.parse\<close>, the \<open>BeautifulSoup\<close>
  constructor with the lxml builder, and \<open>datetime.fromtimestamp(time.mktime(t))\<close>.
  Each may raise.
\<close>

record env =
  open_read :: "str \<Rightarrow> exn + str list"
  feedparser_parse :: "str \<Rightarrow> exn + feed"
  BeautifulSoup :: "str \<Rightarrow> exn + node"
  fromtimestamp_mktime :: "struct_time \<Rightarrow> exn + datetime"

section \<open>clean\_html\<close>

text \<open>
  \<open>html_content\<close> is \<open>None\<close> or a string; \<open>not html_content\<close> holds for \<open>None\<close> and for
  the empty string. A \<open>Tag\<close> is always truthy, so \<open>if first_p\<close> tests for \<open>None\<close> only.
  There is no handler in the function: an exception of the parser leaves it.
\<close>

definition no_content :: str where
  "no_content = ustr ''No content available.''"

text \<open>
  The text the summary is made from: \<open>first_p.get_text()\<close> when \<open>soup.find('p')\<close>
  finds a tag, \<open>soup.get_text()\<close> otherwise.
\<close>

definition raw_text_of :: "node \<Rightarrow> str" where
  "raw_text_of soup =
     (case soup_find (ustr ''p'') soup of
        Some first_p \<Rightarrow> get_text first_p
      | None \<Rightarrow> get_text soup)"

fun clean_html :: "env \<Rightarrow> str option \<Rightarrow> exn + str" where
  "clean_html E None = Inr no_content"
| "clean_html E (Some html_content) =
     (if html_content = [] then Inr no_content
      else case BeautifulSoup E html_content of
             Inl e \<Rightarrow> Inl e
           | Inr soup \<Rightarrow>
               (let raw_text = raw_text_of soup;
                    flat_text = strip (re_sub_ws raw_text)
                in Inr flat_text))"

section \<open>The application state and its operations\<close>

text \<open>
  The calls the program makes on its widgets, in the order made: \<open>update\<close> on the title,
  meta and body widgets and \<open>scroll_home\<close>. The meta line is the f-string
  \<open>source | date_str\<close>; it is kept as the two values it is formatted from.
\<close>

datatype ui_call =
    TitleUpdate str
  | MetaUpdate str datetime
  | BodyUpdate str
  | ScrollHome

text \<open>
  The fields of \<open>RSSReaderApp\<close>. \<open>auto_timer\<close> is \<open>None\<close> until \<open>on_mount\<close> sets it; a
  timer is counted by the number of \<open>reset()\<close> calls made on it.
\<close>

record app =
  feed_file :: str
  stories :: "story list"
  current_index :: int
  auto_timer :: "nat option"
  ui :: "ui_call list"

definition update_display :: "app \<Rightarrow> exn + app" where
  "update_display a =
     (if stories a = [] then Inr a
      else
        let a1 = (if current_index a \<ge> int (length (stories a))
                  then a\<lparr>current_index := 0\<rparr> else a)
        in case getitem (stories a1) (current_index a1) of
             Inl e \<Rightarrow> Inl e
           | Inr st \<Rightarrow>
               Inr (a1\<lparr>ui := ui a1 @
                      [TitleUpdate (title st), MetaUpdate (source st) (date st),
                       BodyUpdate (body st), ScrollHome]\<rparr>))"

definition timer_reset :: "app \<Rightarrow> app" where
  "timer_reset a =
     (case auto_timer a of None \<Rightarrow> a | Some k \<Rightarrow> a\<lparr>auto_timer := Some (Suc k)\<rparr>)"

definition action_next_story :: "app \<Rightarrow> exn + app" where
  "action_next_story a =
     (if stories a \<noteq> [] then
        case update_display
               (a\<lparr>current_index := (current_index a + 1) mod int (length (stories a))\<rparr>) of
          Inl e \<Rightarrow> Inl e
        | Inr a' \<Rightarrow> Inr (timer_reset a')
      else Inr a)"

definition action_prev_story :: "app \<Rightarrow> exn + app" where
  "action_prev_story a =
     (if stories a \<noteq> [] then
        case update_display
               (a\<lparr>current_index := (current_index a - 1) mod int (length (stories a))\<rparr>) of
          Inl e \<Rightarrow> Inl e
        | Inr a' \<Rightarrow> Inr (timer_reset a')
      else Inr a)"

subsection \<open>load\_feeds\<close>

text \<open>
  \<open>entry.get('content', [{'value': entry.get('summary', '')}])[0]['value']\<close>:
  without a \<open>'content'\<close> key the default list gives the summary, or the empty string;
  with one, \<open>[0]\<close> raises \<open>IndexError\<close> on an empty list and \<open>['value']\<close> raises
  \<open>KeyError\<close> when the first dictionary has no such key.
\<close>

definition raw_content_of :: "entry \<Rightarrow> exn + str" where
  "raw_content_of e =
     (case entry_content e of
        None \<Rightarrow> Inr (case entry_summary e of None \<Rightarrow> [] | Some s \<Rightarrow> s)
      | Some [] \<Rightarrow> Inl IndexError
      | Some (None # _) \<Rightarrow> Inl KeyError
      | Some (Some v # _) \<Rightarrow> Inr v)"

text \<open>
  The body of the inner loop for one entry, up to the dictionary that is appended:
  the raw content, \<open>clean_html\<close>, the date (\<open>published_parsed\<close>, else \<open>updated_parsed\<close>,
  else \<open>datetime.now()\<close>), the title with its default and the feed title with the
  address as default.
\<close>

definition make_story :: "env \<Rightarrow> str \<Rightarrow> feed \<Rightarrow> entry \<Rightarrow> exn + story" where
  "make_story E url parsed e =
     (case raw_content_of e of
        Inl x \<Rightarrow> Inl x
      | Inr raw_content \<Rightarrow>
          (case clean_html E (Some raw_content) of
             Inl x \<Rightarrow> Inl x
           | Inr clean_text \<Rightarrow>
               (case (case (case published_parsed e of
                              Some t \<Rightarrow> Some t
                            | None \<Rightarrow> updated_parsed e) of
                        Some pub_date \<Rightarrow> fromtimestamp_mktime E pub_date
                      | None \<Rightarrow> Inr (now_reading e)) of
                  Inl x \<Rightarrow> Inl x
                | Inr dt_object \<Rightarrow>
                    Inr \<lparr>title = (case entry_title e of None \<Rightarrow> ustr ''No Title'' | Some t \<Rightarrow> t),
                         date = dt_object,
                         source = (case feed_title parsed of None \<Rightarrow> url | Some t \<Rightarrow> t),
                         body = clean_text\<rparr>)))"

text \<open>
  The inner \<open>for entry in parsed.entries\<close> loop. \<open>all_entries\<close> is appended to in place,
  so when an entry raises, the loop returns the exception together with the list as it
  stands at that moment.
\<close>

fun for_entries :: "env \<Rightarrow> str \<Rightarrow> feed \<Rightarrow> entry list \<Rightarrow> story list \<Rightarrow> exn option \<times> story list" where
  "for_entries E url parsed [] all_entries = (None, all_entries)"
| "for_entries E url parsed (e # es) all_entries =
     (case make_story E url parsed e of
        Inl x \<Rightarrow> (Some x, all_entries)
      | Inr st \<Rightarrow> for_entries E url parsed es (all_entries @ [st]))"

text \<open>
  One round of \<open>for url in urls\<close>: the \<open>try\<close> block, and the handler
  \<open>except Exception: continue\<close>, which drops the exception and goes on with the list
  as it stands.
\<close>

definition try_url :: "env \<Rightarrow> story list \<Rightarrow> str \<Rightarrow> story list" where
  "try_url E all_entries url =
     (case feedparser_parse E url of
        Inl x \<Rightarrow> all_entries
      | Inr parsed \<Rightarrow> snd (for_entries E url parsed (entries parsed) all_entries))"

definition collect :: "env \<Rightarrow> str list \<Rightarrow> story list" where
  "collect E urls = foldl (try_url E) [] urls"

text \<open>\<open>[line.strip() for line in f if line.strip()]\<close>\<close>

definition read_urls :: "str list \<Rightarrow> str list" where
  "read_urls f = map strip (filter (\<lambda>line. strip line \<noteq> []) f)"

text \<open>
  \<open>load_feeds\<close>. Only \<open>FileNotFoundError\<close> is handled around the file read; any other
  exception of \<open>open\<close> or of the iteration leaves the function.
\<close>

definition load_feeds :: "env \<Rightarrow> app \<Rightarrow> exn + app" where
  "load_feeds E a =
     (case open_read E (feed_file a) of
        Inl x \<Rightarrow>
          (if x = FileNotFoundError
           then Inr (a\<lparr>ui := ui a @ [TitleUpdate (ustr ''Error: feeds.txt not found'')]\<rparr>)
           else Inl x)
      | Inr f \<Rightarrow>
          (let urls = read_urls f;
               all_entries = collect E urls
           in if all_entries \<noteq> []
              then update_display
                     (a\<lparr>stories := sorted_reverse date all_entries, current_index := 0\<rparr>)
              else Inr (a\<lparr>ui := ui a @ [TitleUpdate (ustr ''No stories found.'')]\<rparr>)))"

text \<open>
  The state of a freshly constructed \<open>RSSReaderApp(feed_file)\<close>: the class attributes
  \<open>stories = []\<close>, \<open>current_index = reactive(0)\<close>, \<open>auto_timer = None\<close>.
\<close>

definition init_app :: "str \<Rightarrow> app" where
  "init_app path =
     \<lparr>feed_file = path, stories = [], current_index = 0, auto_timer = None, ui = []\<rparr>"

text \<open>\<open>clean_html\<close> applied to its own result (an exception of the first call is kept).\<close>

definition clean_html_twice :: "env \<Rightarrow> str option \<Rightarrow> exn + str" where
  "clean_html_twice E html_content =
     (case clean_html E html_content of
        Inl e \<Rightarrow> Inl e
      | Inr y \<Rightarrow> clean_html E (Some y))"

section \<open>The specification's wording\<close>

text \<open>
  The definitions of this section follow the words of the specification, not the code;
  the code is compared with them below.

  Text content of a node, as in the DOM: the concatenation of the text content of its
  children; markup contributes nothing.
\<close>

fun text_content :: "node \<Rightarrow> str" where
  "text_content (Tag n cs) = concat (map text_content cs)"
| "text_content (NavigableString s) = s"
| "text_content (Comment s) = []"

text \<open>
  The first element of a given name in a forest: an element comes before the elements
  inside it, and those before the elements that follow it.
\<close>

fun first_element :: "str \<Rightarrow> node list \<Rightarrow> node option" where
  "first_element name [] = None"
| "first_element name (Tag n cs # rest) =
     (if n = name then Some (Tag n cs)
      else (case first_element name cs of
              Some r \<Rightarrow> Some r
            | None \<Rightarrow> first_element name rest))"
| "first_element name (NavigableString s # rest) = first_element name rest"
| "first_element name (Comment s # rest) = first_element name rest"

text \<open>
  Step 2 of the specification: the text content of the first paragraph element, or of the
  entire document when there is none.
\<close>

definition spec_extract :: "node \<Rightarrow> str" where
  "spec_extract d =
     (case (case d of Tag n cs \<Rightarrow> first_element (ustr ''p'') cs
                    | NavigableString s \<Rightarrow> None
                    | Comment s \<Rightarrow> None) of
        Some p \<Rightarrow> text_content p
      | None \<Rightarrow> text_content d)"

text \<open>
  Step 3 of the specification. A text splits into its maximal runs of whitespace and of
  other characters; every run of whitespace becomes a single space.
\<close>

function runs :: "str \<Rightarrow> str list" where
  "runs [] = []"
| "runs (c # cs) =
     (c # takeWhile (\<lambda>d. isspace d = isspace c) cs) #
       runs (dropWhile (\<lambda>d. isspace d = isspace c) cs)"
  by pat_completeness auto
termination
  by (relation "measure length") (auto simp: length_dropWhile_le less_Suc_eq_le)

fun collapse_run :: "str \<Rightarrow> str" where
  "collapse_run [] = []"
| "collapse_run (c # cs) = (if isspace c then [32] else c # cs)"

definition collapse_whitespace :: "str \<Rightarrow> str" where
  "collapse_whitespace s = concat (map collapse_run (runs s))"

text \<open>
  Trimming, in the specification's words: whitespace at the start is dropped, then
  whitespace at the end. Neither function is defined through \<open>strip\<close>.
\<close>

fun trim_start :: "str \<Rightarrow> str" where
  "trim_start [] = []"
| "trim_start (c # cs) = (if isspace c then trim_start cs else c # cs)"

fun trim_end :: "str \<Rightarrow> str" where
  "trim_end [] = []"
| "trim_end (c # cs) = (if isspace c \<and> trim_end cs = [] then [] else c # trim_end cs)"

definition spec_trim :: "str \<Rightarrow> str" where
  "spec_trim s = trim_end (trim_start s)"


text \<open>
  A normalized text: its only whitespace characters are single spaces, and no two of
  them are adjacent (so it has no newline, no tab and no run of two spaces).
\<close>

fun flat :: "str \<Rightarrow> bool" where
  "flat [] = True"
| "flat [c] = (isspace c \<longrightarrow> c = 32)"
| "flat (c # d # cs) = ((isspace c \<longrightarrow> c = 32 \<and> \<not> isspace d) \<and> flat (d # cs))"

text \<open>The invariant of the rotation state.\<close>

definition index_ok :: "app \<Rightarrow> bool" where
  "index_ok a \<longleftrightarrow>
     (stories a \<noteq> [] \<longrightarrow>
        0 \<le> current_index a \<and> current_index a < int (length (stories a)))"

section \<open>A sample environment\<close>

text \<open>
  Concrete inputs for the examples below. \<open>document\<close> is the shape the lxml builder gives
  every tree: the content sits in \<open>body\<close> inside \<open>html\<close>. \<open>sample_soup\<close> tabulates the
  parser on the markups used here; any other string is taken as bare text, which lxml
  wraps in a paragraph.
\<close>

definition document :: "node list \<Rightarrow> node" where
  "document cs = Tag (ustr ''[document]'') [Tag (ustr ''html'') [Tag (ustr ''body'') cs]]"

definition hello_markup :: str where
  "hello_markup = ustr ''<p>Hello<br>World</p><p>Second</p>''"

definition blank_markup :: str where
  "blank_markup = ustr ''<p> </p>''"

text \<open>
  A first paragraph with whitespace at both ends and a newline and a tab inside, an empty
  first paragraph followed by a paragraph with text, and a paragraph whose text is the
  fallback string itself.
\<close>

definition spaced_markup :: str where
  "spaced_markup = ustr ''<p>  Late'' @ [10, 9] @ ustr ''<b>news</b>  </p><p>more</p>''"

definition empty_par_markup :: str where
  "empty_par_markup = ustr ''<p></p><p>Second</p>''"

definition fallback_par_markup :: str where
  "fallback_par_markup = ustr ''<p>No content available.</p>''"

definition sample_soup :: "str \<Rightarrow> exn + node" where
  "sample_soup m =
     (if m = hello_markup then
        Inr (document
               [Tag (ustr ''p'') [NavigableString (ustr ''Hello''), Tag (ustr ''br'') [],
                                  NavigableString (ustr ''World'')],
                Tag (ustr ''p'') [NavigableString (ustr ''Second'')]])
      else if m = blank_markup then
        Inr (document [Tag (ustr ''p'') [NavigableString (ustr '' '')]])
      else if m = ustr ''<div>Late  news</div>'' then
        Inr (document [Tag (ustr ''div'') [NavigableString (ustr ''Late  news'')]])
      else if m = spaced_markup then
        Inr (document
               [Tag (ustr ''p'') [NavigableString (ustr ''  Late'' @ [10, 9]),
                                  Tag (ustr ''b'') [NavigableString (ustr ''news'')],
                                  NavigableString (ustr ''  '')],
                Tag (ustr ''p'') [NavigableString (ustr ''more'')]])
      else if m = empty_par_markup then
        Inr (document [Tag (ustr ''p'') [], Tag (ustr ''p'') [NavigableString (ustr ''Second'')]])
      else if m = fallback_par_markup then
        Inr (document [Tag (ustr ''p'') [NavigableString (ustr ''No content available.'')]])
      else Inr (document [Tag (ustr ''p'') [NavigableString m]]))"

definition sample_time :: "struct_time \<Rightarrow> exn + datetime" where
  "sample_time t =
     (case t of
        y # m # d # rest \<Rightarrow>
          (if 1970 \<le> y \<and> y \<le> 2100 then Inr ((y * 12 + m) * 31 + d) else Inl OverflowError)
      | _ \<Rightarrow> Inl OverflowError)"

definition url_a :: str where "url_a = ustr ''https://a.example/rss''"
definition url_b :: str where "url_b = ustr ''https://b.example/rss''"
definition url_c :: str where "url_c = ustr ''https://c.example/rss''"

definition item :: "string \<Rightarrow> str \<Rightarrow> struct_time \<Rightarrow> entry" where
  "item t m pub =
     \<lparr>entry_content = None, entry_summary = Some m, entry_title = Some (ustr t),
      published_parsed = Some pub, updated_parsed = None, now_reading = 0\<rparr>"

text \<open>
  The third entry of \<open>broken_feed\<close> carries a date of the year 1, which
  \<open>time.mktime\<close> refuses with \<open>OverflowError\<close>; the entries around it are sound.
\<close>

definition broken_feed :: feed where
  "broken_feed =
     \<lparr>feed_title = None,
      entries = [item ''C1'' blank_markup [2024, 6, 1, 0, 0, 0, 5, 153, 0],
                 item ''C2'' (ustr ''HelloWorld'') [2024, 6, 1, 0, 0, 0, 5, 153, 0],
                 item ''C3'' hello_markup [1, 1, 1, 0, 0, 0, 0, 1, 0],
                 item ''C4'' hello_markup [2024, 7, 1, 0, 0, 0, 0, 183, 0]]\<rparr>"

definition sample_feeds :: "str \<Rightarrow> exn + feed" where
  "sample_feeds url =
     (if url = url_a then
        Inr \<lparr>feed_title = Some (ustr ''Feed A''),
             entries = [item ''X'' hello_markup [2024, 5, 1, 12, 0, 0, 2, 122, 0]]\<rparr>
      else if url = url_c then Inr broken_feed
      else Inl URLError)"

definition sample_open :: "str \<Rightarrow> exn + str list" where
  "sample_open path =
     (if path = ustr ''feeds.txt'' then
        Inr [url_a @ [10], [10], url_b @ [10], [32, 32] @ url_c @ [10]]
      else if path = ustr ''down.txt'' then Inr [url_b @ [10]]
      else if path = ustr ''locked.txt'' then Inl PermissionError
      else Inl FileNotFoundError)"

definition sample_env :: env where
  "sample_env =
     \<lparr>open_read = sample_open, feedparser_parse = sample_feeds,
      BeautifulSoup = sample_soup, fromtimestamp_mktime = sample_time\<rparr>"

text \<open>
  An installation in which the lxml package is missing: bs4 then finds no tree builder for
  the feature \<open>lxml\<close>, and the \<open>BeautifulSoup\<close> constructor raises \<open>FeatureNotFound\<close>
  whatever the markup is. Everything else is as in \<open>sample_env\<close>.
\<close>

definition no_lxml_env :: env where
  "no_lxml_env = sample_env\<lparr>BeautifulSoup := (\<lambda>m. Inl FeatureNotFound)\<rparr>"

text \<open>An application that already shows the second of two stories.\<close>

definition sample_app :: "str \<Rightarrow> app" where
  "sample_app path =
     \<lparr>feed_file = path,
      stories = [\<lparr>title = ustr ''New'', date = 20, source = ustr ''Feed A'', body = ustr ''n''\<rparr>,
                 \<lparr>title = ustr ''Old'', date = 10, source = ustr ''Feed A'', body = ustr ''o''\<rparr>],
      current_index = 1, auto_timer = Some 0, ui = []\<rparr>"

lemmas sample_defs =
  sample_env_def sample_open_def sample_feeds_def sample_soup_def sample_time_def
  broken_feed_def url_a_def url_b_def url_c_def item_def hello_markup_def blank_markup_def
  spaced_markup_def empty_par_markup_def fallback_par_markup_def no_lxml_env_def document_def ustr_def no_content_def sample_app_def init_app_def

lemmas run_defs =
  raw_text_of_def soup_find_def get_text_def strip_def isspace_def
  make_story_def raw_content_of_def try_url_def collect_def read_urls_def

section \<open>Whitespace flattening\<close>

lemma dropWhile_head: "dropWhile P xs = y # ys \<Longrightarrow> \<not> P y"
  by (metis hd_dropWhile list.sel(1) list.distinct(1))

lemma re_sub_ws_head:
  "re_sub_ws s = x # r \<Longrightarrow> isspace x \<Longrightarrow> x = 32 \<and> s \<noteq> [] \<and> isspace (hd s)"
  by (cases s) (auto split: if_splits)

text \<open>The output of the substitution is normalized.\<close>

lemma flat_re_sub_ws: "flat (re_sub_ws s)"
proof (induction s rule: re_sub_ws.induct)
  case 1
  show ?case by simp
next
  case (2 c cs)
  show ?case
  proof (cases "isspace c")
    case True
    let ?t = "dropWhile isspace cs"
    have ih: "flat (re_sub_ws ?t)" using 2(1) True by simp
    show ?thesis
    proof (cases "re_sub_ws ?t")
      case Nil
      then show ?thesis using True by simp
    next
      case (Cons x r)
      have "\<not> isspace x"
      proof
        assume "isspace x"
        from re_sub_ws_head[OF Cons this] have "?t \<noteq> []" "isspace (hd ?t)" by auto
        then show False by (metis hd_dropWhile)
      qed
      then show ?thesis using True ih Cons by simp
    qed
  next
    case False
    have ih: "flat (re_sub_ws cs)" using 2(2) False by simp
    show ?thesis using False ih by (cases "re_sub_ws cs") auto
  qed
qed

text \<open>On a normalized text the substitution changes nothing.\<close>

lemma re_sub_ws_flat: "flat t \<Longrightarrow> re_sub_ws t = t"
  by (induction t rule: flat.induct) auto

lemma flat_tl: "flat (c # cs) \<Longrightarrow> flat cs"
  by (cases cs) auto

lemma flat_dropWhile: "flat s \<Longrightarrow> flat (dropWhile P s)"
  by (induction s) (auto dest: flat_tl)

lemma flat_butlast: "flat s \<Longrightarrow> flat (butlast s)"
  by (induction s rule: flat.induct) auto

lemma flat_rev_dropWhile_rev: "flat s \<Longrightarrow> flat (rev (dropWhile P (rev s)))"
proof (induction s rule: rev_induct)
  case Nil
  show ?case by simp
next
  case (snoc x xs)
  have "flat xs" using snoc.prems flat_butlast[of "xs @ [x]"] by simp
  then show ?case using snoc by auto
qed

lemma flat_strip: "flat s \<Longrightarrow> flat (strip s)"
  unfolding strip_def by (intro flat_rev_dropWhile_rev flat_dropWhile)

lemma rev_dropWhile_rev_prefix: "\<exists>w. u = rev (dropWhile P (rev u)) @ w"
  by (metis rev_append rev_rev_ident takeWhile_dropWhile_id)

lemma dropWhile_strip: "dropWhile isspace (strip s) = strip s"
proof (cases "strip s")
  case Nil
  then show ?thesis by simp
next
  case (Cons x r)
  let ?u = "dropWhile isspace s"
  obtain w where w: "?u = strip s @ w"
    using rev_dropWhile_rev_prefix[of ?u isspace] by (auto simp: strip_def)
  then have "?u = x # (r @ w)" using Cons by simp
  then have "\<not> isspace x" by (rule dropWhile_head)
  then show ?thesis using Cons by simp
qed

lemma strip_strip: "strip (strip s) = strip s"
proof -
  have "dropWhile isspace (rev (strip s)) = rev (strip s)"
    by (simp add: strip_def)
  then show ?thesis
    unfolding strip_def[of "strip s"] by (simp add: dropWhile_strip)
qed

text \<open>The flattening step of \<open>clean_html\<close> is idempotent.\<close>

lemma flatten_idem: "strip (re_sub_ws (strip (re_sub_ws s))) = strip (re_sub_ws s)"
  by (simp add: re_sub_ws_flat flat_strip flat_re_sub_ws strip_strip)

lemma dropWhile_none: "\<forall>c\<in>set w. \<not> P c \<Longrightarrow> dropWhile P w = w"
  by (cases w) auto

lemma strip_no_space: "\<forall>c\<in>set w. \<not> isspace c \<Longrightarrow> strip w = w"
  by (simp add: strip_def dropWhile_none)

lemma re_sub_ws_no_space: "\<forall>c\<in>set w. \<not> isspace c \<Longrightarrow> re_sub_ws w = w"
  by (induction w) auto

lemma dropWhile_all: "\<forall>c\<in>set w. P c \<Longrightarrow> dropWhile P w = []"
  by (induction w) auto

lemma re_sub_ws_all_space: "\<forall>c\<in>set t. isspace c \<Longrightarrow> re_sub_ws t = (if t = [] then [] else [32])"
proof (cases t)
  case Nil
  then show ?thesis by simp
next
  case (Cons c cs)
  assume "\<forall>c\<in>set t. isspace c"
  then have "isspace c" "re_sub_ws (dropWhile isspace cs) = []"
    using Cons by (simp_all add: dropWhile_all)
  then show ?thesis using Cons by simp
qed

lemma strip_all_space: "\<forall>c\<in>set t. isspace c \<Longrightarrow> strip (re_sub_ws t) = []"
  by (simp add: re_sub_ws_all_space strip_def isspace_def)

text \<open>\<open>strip\<close> is the trimming that the specification words.\<close>

lemma trim_start_eq: "trim_start s = dropWhile isspace s"
  by (induction s) auto

lemma trim_end_eq: "trim_end s = rev (dropWhile isspace (rev s))"
proof (induction s)
  case Nil
  show ?case by simp
next
  case (Cons c cs)
  show ?case
  proof (cases "\<forall>x\<in>set cs. isspace x")
    case True
    then have "dropWhile isspace (rev cs) = []" by (simp add: dropWhile_all)
    then show ?thesis using Cons True by (simp add: dropWhile_append)
  next
    case False
    then have "dropWhile isspace (rev cs) \<noteq> []" by auto
    then show ?thesis using Cons False by (simp add: dropWhile_append)
  qed
qed

lemma strip_eq_spec_trim: "strip s = spec_trim s"
  by (simp add: strip_def spec_trim_def trim_start_eq trim_end_eq)

text \<open>The substitution of the code is the collapse of runs that the specification words.\<close>

lemma runs_nonspace_prefix:
  "concat (map collapse_run (runs cs)) =
     takeWhile (\<lambda>d. \<not> isspace d) cs @
       concat (map collapse_run (runs (dropWhile (\<lambda>d. \<not> isspace d) cs)))"
proof (cases cs)
  case Nil
  then show ?thesis by simp
next
  case (Cons d ds)
  show ?thesis
  proof (cases "isspace d")
    case True
    then show ?thesis using Cons by simp
  next
    case False
    then have "(\<lambda>x. isspace x = isspace d) = (\<lambda>x. \<not> isspace x)" by auto
    then show ?thesis using Cons False by simp
  qed
qed

lemma re_sub_ws_collapse: "re_sub_ws s = collapse_whitespace s"
  unfolding collapse_whitespace_def
proof (induction s rule: re_sub_ws.induct)
  case 1
  show ?case by simp
next
  case (2 c cs)
  show ?case
  proof (cases "isspace c")
    case True
    then have "(\<lambda>x. isspace x = isspace c) = isspace" by auto
    then show ?thesis using True 2(1) by simp
  next
    case False
    then have "(\<lambda>x. isspace x = isspace c) = (\<lambda>x. \<not> isspace x)" by auto
    then show ?thesis using False 2(2) runs_nonspace_prefix[of cs] by simp
  qed
qed

section \<open>The markup tree\<close>

lemma text_content_descendants:
  "concat (map string_of (c # descendants c)) = text_content c"
proof (induction c)
  case (Tag n cs)
  have "concat (map string_of (concat (map (\<lambda>c. c # descendants c) cs))) =
        concat (map text_content cs)"
    using Tag by (induction cs) auto
  then show ?case by simp
qed simp_all

lemma get_text_eq: "get_text nd = text_content nd"
  using text_content_descendants[of nd] by (cases nd) (simp_all add: get_text_def)

lemma find_append:
  "List.find P (xs @ ys) = (case List.find P xs of Some x \<Rightarrow> Some x | None \<Rightarrow> List.find P ys)"
  by (induction xs) auto

lemma find_descendants:
  "List.find (is_tag_named name) (concat (map (\<lambda>c. c # descendants c) cs)) =
     first_element name cs"
proof (induction name cs rule: first_element.induct)
  case (2 name n cs rest)
  then show ?case by (auto simp: find_append split: option.splits)
qed simp_all

lemma raw_text_of_eq: "raw_text_of soup = spec_extract soup"
  by (cases soup)
     (simp_all add: raw_text_of_def spec_extract_def soup_find_def find_descendants get_text_eq
        split: option.splits)

section \<open>What clean\_html returns\<close>

lemma clean_html_parsed:
  "html_content \<noteq> [] \<Longrightarrow> BeautifulSoup E html_content = Inr soup \<Longrightarrow>
   clean_html E (Some html_content) = Inr (strip (re_sub_ws (raw_text_of soup)))"
  by simp

lemma flat_no_content: "flat no_content \<and> strip no_content = no_content \<and> no_content \<noteq> []"
  by (simp add: no_content_def ustr_def isspace_def strip_def)

text \<open>
  Whatever \<open>clean_html\<close> returns is normalized and trimmed: it holds no newline, no tab and
  no run of two spaces.
\<close>

lemma clean_html_flat:
  assumes "clean_html E x = Inr y"
  shows "flat y \<and> strip y = y"
proof (cases x)
  case None
  then show ?thesis using assms flat_no_content by auto
next
  case (Some m)
  show ?thesis
  proof (cases "m = []")
    case True
    then show ?thesis using assms Some flat_no_content by auto
  next
    case False
    then obtain d where "BeautifulSoup E m = Inr d" "y = strip (re_sub_ws (raw_text_of d))"
      using assms Some by (auto split: sum.splits)
    then show ?thesis by (simp add: flat_strip flat_re_sub_ws strip_strip)
  qed
qed

section \<open>Claims about clean\_html\<close>

text \<open>
  C1 (as amended). When the markup parses to a document whose body begins with a paragraph
  holding a word, a line-break element and a second word, followed by a second paragraph,
  \<open>clean_html\<close> returns the two words joined with nothing between them: the line-break
  element contributes no text and no space. The second paragraph's text is excluded.
\<close>

theorem clean_html_line_break:
  assumes "html_content \<noteq> []"
    and "BeautifulSoup E html_content =
           Inr (document
                  (Tag (ustr ''p'') [NavigableString w1, Tag (ustr ''br'') [], NavigableString w2]
                   # Tag (ustr ''p'') second # rest))"
    and "\<forall>c\<in>set (w1 @ w2). \<not> isspace c"
  shows "clean_html E (Some html_content) = Inr (w1 @ w2)"
proof -
  have "raw_text_of
          (document
             (Tag (ustr ''p'') [NavigableString w1, Tag (ustr ''br'') [], NavigableString w2]
              # Tag (ustr ''p'') second # rest)) = w1 @ w2"
    by (simp add: raw_text_of_def soup_find_def get_text_def document_def ustr_def)
  moreover have "strip (re_sub_ws (w1 @ w2)) = w1 @ w2"
    using assms(3) by (simp add: re_sub_ws_no_space strip_no_space)
  ultimately show ?thesis
    using assms(1,2) by (simp add: clean_html_parsed)
qed

theorem clean_html_line_break_witness:
  "clean_html sample_env (Some hello_markup) = Inr (ustr ''HelloWorld'')"
proof -
  have "clean_html sample_env (Some hello_markup) = Inr (ustr ''Hello'' @ ustr ''World'')"
    by (rule clean_html_line_break[where second = "[NavigableString (ustr ''Second'')]"
                                     and rest = "[]"])
       (simp_all add: sample_defs isspace_def)
  then show ?thesis by (simp add: ustr_def)
qed

text \<open>
  C1 as stated fails: on \<open><p>Hello<br>World</p><p>Second</p>\<close> the result is
  \<open>HelloWorld\<close>, not \<open>Hello World\<close>.
\<close>

theorem clean_html_hello_counterexample:
  "clean_html sample_env (Some hello_markup) \<noteq> Inr (ustr ''Hello World'')"
  by (simp add: sample_defs run_defs)



text \<open>
  C9 (as amended). Take any result \<open>y\<close> of \<open>clean_html\<close>. If \<open>y\<close> is non-empty and the
  parser reads \<open>y\<close> back as a document whose extracted text (first paragraph, else whole
  document) is \<open>y\<close> itself, then applying \<open>clean_html\<close> again returns \<open>y\<close> unchanged.
  If \<open>y\<close> is the empty string, the second application returns the fallback string instead.
\<close>

theorem clean_html_twice_read_back:
  assumes "clean_html E x = Inr y"
  shows "(y \<noteq> [] \<and> BeautifulSoup E y = Inr d \<and> raw_text_of d = y
            \<longrightarrow> clean_html_twice E x = clean_html E x) \<and>
         (y = [] \<longrightarrow> clean_html_twice E x = Inr no_content)"
proof -
  have "flat y" "strip y = y" using clean_html_flat[OF assms] by auto
  then have "strip (re_sub_ws y) = y" by (simp add: re_sub_ws_flat)
  then show ?thesis using assms by (auto simp: clean_html_twice_def)
qed

theorem clean_html_twice_read_back_witness:
  "clean_html sample_env (Some hello_markup) = Inr (ustr ''HelloWorld'') \<and>
   clean_html_twice sample_env (Some hello_markup) = Inr (ustr ''HelloWorld'') \<and>
   clean_html sample_env (Some blank_markup) = Inr [] \<and>
   clean_html_twice sample_env (Some blank_markup) = Inr no_content"
proof -
  have r1: "clean_html sample_env (Some hello_markup) = Inr (ustr ''HelloWorld'')"
    by (simp add: sample_defs run_defs)
  have r2: "clean_html sample_env (Some blank_markup) = Inr []"
    by (simp add: sample_defs run_defs)
  have b: "ustr ''HelloWorld'' \<noteq> [] \<and>
           BeautifulSoup sample_env (ustr ''HelloWorld'') =
             Inr (document [Tag (ustr ''p'') [NavigableString (ustr ''HelloWorld'')]]) \<and>
           raw_text_of (document [Tag (ustr ''p'') [NavigableString (ustr ''HelloWorld'')]]) =
             ustr ''HelloWorld''"
    by (simp add: sample_defs run_defs)
  show ?thesis
    using clean_html_twice_read_back[OF r1,
            of "document [Tag (ustr ''p'') [NavigableString (ustr ''HelloWorld'')]]"]
          clean_html_twice_read_back[OF r2] r1 r2 b
    by simp
qed

text \<open>
  C9 as stated fails: a paragraph that holds only a space normalizes to the empty string,
  and the empty string normalizes to the fallback string.
\<close>

theorem clean_html_twice_counterexample:
  "clean_html_twice sample_env (Some blank_markup) \<noteq> clean_html sample_env (Some blank_markup)"
  by (simp add: clean_html_twice_def sample_defs run_defs)

text \<open>
  C10 (as amended). For a non-empty input that the parser reads and whose extracted text
  (the text content of the first paragraph element, or of the whole document when it has
  no paragraph element) is entirely whitespace, an empty first paragraph included,
  \<open>clean_html\<close> returns the empty string, which is not the fallback string. The fallback
  string is returned for absent and for empty input, and for another input only when the
  extracted text of that input itself normalizes to exactly that string.
\<close>

theorem clean_html_whitespace_only:
  assumes "html_content \<noteq> []"
    and "BeautifulSoup E html_content = Inr soup"
    and "\<forall>c\<in>set (spec_extract soup). isspace c"
  shows "clean_html E (Some html_content) = Inr [] \<and>
         clean_html E (Some html_content) \<noteq> Inr no_content \<and>
         (\<forall>x. clean_html E x = Inr no_content \<longleftrightarrow>
            x = None \<or> x = Some [] \<or>
            (\<exists>m d. x = Some m \<and> BeautifulSoup E m = Inr d \<and>
                   spec_trim (collapse_whitespace (spec_extract d)) = no_content))"
proof -
  have 1: "clean_html E (Some html_content) = Inr []"
    using assms by (simp add: strip_all_space raw_text_of_eq)
  have 2: "[] \<noteq> no_content"
    using flat_no_content by auto
  have 3: "\<forall>x. clean_html E x = Inr no_content \<longleftrightarrow>
            x = None \<or> x = Some [] \<or>
            (\<exists>m d. x = Some m \<and> BeautifulSoup E m = Inr d \<and>
                   spec_trim (collapse_whitespace (spec_extract d)) = no_content)"
  proof
    fix x
    show "clean_html E x = Inr no_content \<longleftrightarrow>
            x = None \<or> x = Some [] \<or>
            (\<exists>m d. x = Some m \<and> BeautifulSoup E m = Inr d \<and>
                   spec_trim (collapse_whitespace (spec_extract d)) = no_content)"
    proof (cases x)
      case None
      then show ?thesis by simp
    next
      case (Some m)
      show ?thesis
      proof (cases "m = []")
        case True
        then show ?thesis using Some by simp
      next
        case False
        then show ?thesis using Some
          by (cases "BeautifulSoup E m")
             (simp_all add: raw_text_of_eq re_sub_ws_collapse strip_eq_spec_trim)
      qed
    qed
  qed
  show ?thesis using 1 2 3 by simp
qed

theorem clean_html_whitespace_only_witness:
  "empty_par_markup \<noteq> [] \<and>
   spec_extract (document [Tag (ustr ''p'') [],
                           Tag (ustr ''p'') [NavigableString (ustr ''Second'')]]) = [] \<and>
   clean_html sample_env (Some empty_par_markup) = Inr [] \<and>
   clean_html sample_env (Some empty_par_markup) \<noteq> Inr no_content \<and>
   spec_extract (document [Tag (ustr ''p'') [NavigableString (ustr '' '')]]) = ustr '' '' \<and>
   clean_html sample_env (Some blank_markup) = Inr []"
proof -
  let ?d = "document [Tag (ustr ''p'') [],
                      Tag (ustr ''p'') [NavigableString (ustr ''Second'')]]"
  let ?b = "document [Tag (ustr ''p'') [NavigableString (ustr '' '')]]"
  have h1: "empty_par_markup \<noteq> []" by (simp add: sample_defs)
  have h2: "BeautifulSoup sample_env empty_par_markup = Inr ?d"
    by (simp add: sample_defs)
  have t: "spec_extract ?d = []"
    by (simp add: spec_extract_def document_def ustr_def)
  have h3: "\<forall>c\<in>set (spec_extract ?d). isspace c"
    by (simp add: t)
  have g1: "blank_markup \<noteq> []" by (simp add: sample_defs)
  have g2: "BeautifulSoup sample_env blank_markup = Inr ?b"
    by (simp add: sample_defs)
  have u: "spec_extract ?b = ustr '' ''"
    by (simp add: spec_extract_def document_def ustr_def)
  have g3: "\<forall>c\<in>set (spec_extract ?b). isspace c"
    by (simp add: u) (simp add: ustr_def isspace_def)
  have k: "clean_html sample_env (Some empty_par_markup) = Inr []"
    by (simp add: sample_defs run_defs)
  show ?thesis
    using h1 t u k clean_html_whitespace_only[OF h1 h2 h3]
          clean_html_whitespace_only[OF g1 g2 g3]
    by blast
qed

text \<open>
  C10 as stated fails in its last clause: a paragraph whose text is the fallback string is
  a non-empty input that the parser reads, and \<open>clean_html\<close> returns the fallback string
  for it.
\<close>

theorem clean_html_fallback_text_counterexample:
  "fallback_par_markup \<noteq> [] \<and>
   BeautifulSoup sample_env fallback_par_markup =
     Inr (document [Tag (ustr ''p'') [NavigableString (ustr ''No content available.'')]]) \<and>
   clean_html sample_env (Some fallback_par_markup) = Inr no_content"
  by (simp add: sample_defs run_defs)

section \<open>Sorting, collecting and the rotation index\<close>

lemma sorted_reverse_desc: "sorted_wrt (\<lambda>x y. f x \<ge> f y) (sorted_reverse f xs)"
proof -
  have "sorted (map f (sort_key f (rev xs)))" by simp
  then have "sorted_wrt (\<lambda>x y. f x \<le> f y) (sort_key f (rev xs))"
    by (simp add: sorted_map)
  then show ?thesis
    unfolding sorted_reverse_def by (simp add: sorted_wrt_rev)
qed

lemma sorted_reverse_stable:
  "filter (\<lambda>y. f y = k) (sorted_reverse f xs) = filter (\<lambda>y. f y = k) xs"
  unfolding sorted_reverse_def
  by (simp add: rev_filter[symmetric] sort_key_stable)

lemma mset_sorted_reverse: "mset (sorted_reverse f xs) = mset xs"
  by (simp add: sorted_reverse_def)

lemma sorted_reverse_Nil_iff: "sorted_reverse f xs = [] \<longleftrightarrow> xs = []"
  using mset_sorted_reverse[of f xs] by (metis mset_zero_iff)

text \<open>
  What a source contributes does not depend on what was collected before it, so the
  collected list is the concatenation of the contributions, in the order of the addresses.
\<close>

lemma for_entries_acc:
  "snd (for_entries E url parsed es acc) = acc @ snd (for_entries E url parsed es [])"
proof (induction es arbitrary: acc)
  case Nil
  show ?case by simp
next
  case (Cons e es)
  show ?case
  proof (cases "make_story E url parsed e")
    case (Inl x)
    then show ?thesis by simp
  next
    case (Inr st)
    have "snd (for_entries E url parsed es (acc @ [st])) =
          (acc @ [st]) @ snd (for_entries E url parsed es [])"
      by (rule Cons.IH)
    moreover have "snd (for_entries E url parsed es ([] @ [st])) =
          [st] @ snd (for_entries E url parsed es [])"
      using Cons.IH[of "[st]"] by simp
    ultimately show ?thesis using Inr by simp
  qed
qed

lemma try_url_acc: "try_url E acc url = acc @ try_url E [] url"
  unfolding try_url_def using for_entries_acc[of E url _ _ acc]
  by (auto split: sum.splits)

lemma foldl_try_url: "foldl (try_url E) acc urls = acc @ concat (map (try_url E []) urls)"
proof (induction urls arbitrary: acc)
  case Nil
  show ?case by simp
next
  case (Cons u us)
  have "foldl (try_url E) (try_url E acc u) us =
        try_url E acc u @ concat (map (try_url E []) us)"
    by (rule Cons.IH)
  then show ?case using try_url_acc[of E acc u] by simp
qed

lemma collect_concat: "collect E urls = concat (map (try_url E []) urls)"
  by (simp add: collect_def foldl_try_url)

text \<open>A source whose fetch raises contributes nothing, and the loop goes on.\<close>

lemma try_url_fetch_fails: "feedparser_parse E url = Inl x \<Longrightarrow> try_url E acc url = acc"
  by (simp add: try_url_def)

lemma collect_all_fail:
  "\<forall>u\<in>set urls. \<exists>x. feedparser_parse E u = Inl x \<Longrightarrow> collect E urls = []"
  by (auto simp: collect_concat try_url_def)

text \<open>When every entry of a feed is sound, the feed contributes one story per entry, in order.\<close>

lemma for_entries_all_sound:
  "\<forall>e\<in>set es. \<exists>st. make_story E url parsed e = Inr st \<Longrightarrow>
   for_entries E url parsed es acc =
     (None, acc @ map (\<lambda>e. projr (make_story E url parsed e)) es)"
  by (induction es arbitrary: acc) auto

lemma getitem_in_range:
  "0 \<le> i \<Longrightarrow> i < int (length xs) \<Longrightarrow> getitem xs i = Inr (xs ! nat i)"
  by (simp add: getitem_def)

lemma update_display_ok:
  assumes "index_ok a"
  shows "\<exists>a'. update_display a = Inr a' \<and> stories a' = stories a \<and>
               current_index a' = current_index a \<and> auto_timer a' = auto_timer a \<and>
               index_ok a'"
proof (cases "stories a = []")
  case True
  then show ?thesis using assms by (simp add: update_display_def)
next
  case False
  then have "0 \<le> current_index a" "current_index a < int (length (stories a))"
    using assms by (auto simp: index_ok_def)
  then show ?thesis using False assms
    by (simp add: update_display_def getitem_in_range index_ok_def)
qed

lemma update_display_empty: "stories a = [] \<Longrightarrow> update_display a = Inr a"
  by (simp add: update_display_def)

lemma stories_timer_reset: "stories (timer_reset a) = stories a"
  by (simp add: timer_reset_def split: option.splits)

lemma index_ok_timer_reset: "index_ok (timer_reset a) = index_ok a"
  by (simp add: timer_reset_def index_ok_def split: option.splits)

lemma index_ok_mod:
  "stories a \<noteq> [] \<Longrightarrow> index_ok (a\<lparr>current_index := k mod int (length (stories a))\<rparr>)"
  by (simp add: index_ok_def)

lemma action_next_story_ok:
  "\<exists>a'. action_next_story a = Inr a' \<and> index_ok a' \<and> stories a' = stories a"
proof (cases "stories a = []")
  case True
  then show ?thesis by (simp add: action_next_story_def index_ok_def)
next
  case False
  let ?b = "a\<lparr>current_index := (current_index a + 1) mod int (length (stories a))\<rparr>"
  have "index_ok ?b" using False by (rule index_ok_mod)
  from update_display_ok[OF this] obtain b' where
    "update_display ?b = Inr b'" "index_ok b'" "stories b' = stories ?b" by blast
  then show ?thesis using False
    by (simp add: action_next_story_def index_ok_timer_reset stories_timer_reset)
qed

lemma action_prev_story_ok:
  "\<exists>a'. action_prev_story a = Inr a' \<and> index_ok a' \<and> stories a' = stories a"
proof (cases "stories a = []")
  case True
  then show ?thesis by (simp add: action_prev_story_def index_ok_def)
next
  case False
  let ?b = "a\<lparr>current_index := (current_index a - 1) mod int (length (stories a))\<rparr>"
  have "index_ok ?b" using False by (rule index_ok_mod)
  from update_display_ok[OF this] obtain b' where
    "update_display ?b = Inr b'" "index_ok b'" "stories b' = stories ?b" by blast
  then show ?thesis using False
    by (simp add: action_prev_story_def index_ok_timer_reset stories_timer_reset)
qed

lemma load_feeds_replace:
  assumes "open_read E (feed_file a) = Inr f" and "collect E (read_urls f) \<noteq> []"
  shows "\<exists>a'. load_feeds E a = Inr a' \<and>
              stories a' = sorted_reverse date (collect E (read_urls f)) \<and>
              current_index a' = 0 \<and> index_ok a'"
proof -
  let ?b = "a\<lparr>stories := sorted_reverse date (collect E (read_urls f)), current_index := 0\<rparr>"
  have ne: "stories ?b \<noteq> []" using assms(2) by (simp add: sorted_reverse_Nil_iff)
  then have "index_ok ?b" by (simp add: index_ok_def)
  from update_display_ok[OF this] obtain b' where
    "update_display ?b = Inr b'" "index_ok b'" "stories b' = stories ?b"
    "current_index b' = current_index ?b" by blast
  then show ?thesis using assms by (simp add: load_feeds_def Let_def)
qed

lemma load_feeds_keep:
  assumes "open_read E (feed_file a) = Inr f" and "collect E (read_urls f) = []"
  shows "load_feeds E a = Inr (a\<lparr>ui := ui a @ [TitleUpdate (ustr ''No stories found.'')]\<rparr>)"
  using assms by (simp add: load_feeds_def)

lemma load_feeds_not_found:
  assumes "open_read E (feed_file a) = Inl FileNotFoundError"
  shows "load_feeds E a =
           Inr (a\<lparr>ui := ui a @ [TitleUpdate (ustr ''Error: feeds.txt not found'')]\<rparr>)"
  using assms by (simp add: load_feeds_def)

lemma load_feeds_result:
  assumes "load_feeds E a = Inr a'"
  shows "(stories a' = stories a \<and> current_index a' = current_index a) \<or>
         (stories a' \<noteq> [] \<and> current_index a' = 0)"
proof (cases "open_read E (feed_file a)")
  case (Inl x)
  then show ?thesis using assms by (auto simp: load_feeds_def split: if_splits)
next
  case (Inr f)
  show ?thesis
  proof (cases "collect E (read_urls f) = []")
    case True
    then show ?thesis using assms load_feeds_keep[OF Inr True] by auto
  next
    case False
    then show ?thesis
      using assms load_feeds_replace[OF Inr False] by (auto simp: sorted_reverse_Nil_iff)
  qed
qed

lemma load_feeds_index_ok:
  assumes "index_ok a" and "load_feeds E a = Inr a'"
  shows "index_ok a'"
  using load_feeds_result[OF assms(2)] assms(1) by (auto simp: index_ok_def)

lemma index_ok_init: "index_ok (init_app path)"
  by (simp add: index_ok_def init_app_def)

section \<open>Claims about load\_feeds and the rotation\<close>

text \<open>
  C3. When the source list is read and the run collects at least one story, \<open>load_feeds\<close>
  publishes a list sorted by date, latest first, that holds exactly the collected stories;
  stories of one date keep the order in which they were collected, which is the order of
  the addresses in the source list and, within one source, the order of its entries.
\<close>

theorem load_feeds_sorted_stable:
  assumes "open_read E (feed_file a) = Inr f"
    and "collect E (read_urls f) \<noteq> []"
  shows "\<exists>a'. load_feeds E a = Inr a' \<and>
           sorted_wrt (\<lambda>x y. date x \<ge> date y) (stories a') \<and>
           mset (stories a') = mset (concat (map (try_url E []) (read_urls f))) \<and>
           (\<forall>t. filter (\<lambda>s. date s = t) (stories a') =
                filter (\<lambda>s. date s = t) (concat (map (try_url E []) (read_urls f))))"
proof -
  obtain a' where a': "load_feeds E a = Inr a'"
      "stories a' = sorted_reverse date (collect E (read_urls f))"
    using load_feeds_replace[OF assms] by blast
  have "sorted_wrt (\<lambda>x y. date x \<ge> date y) (stories a')"
    using a'(2) by (simp add: sorted_reverse_desc)
  moreover have "mset (stories a') = mset (concat (map (try_url E []) (read_urls f)))"
    using a'(2) by (simp add: mset_sorted_reverse collect_concat)
  moreover have "\<forall>t. filter (\<lambda>s. date s = t) (stories a') =
                filter (\<lambda>s. date s = t) (concat (map (try_url E []) (read_urls f)))"
    using a'(2) by (simp add: sorted_reverse_stable collect_concat)
  ultimately show ?thesis using a'(1) by blast
qed

theorem load_feeds_sorted_stable_witness:
  "map title (collect sample_env [url_a, url_b, url_c]) = [ustr ''X'', ustr ''C1'', ustr ''C2''] \<and>
   map date (collect sample_env [url_a, url_b, url_c]) = [753084, 753115, 753115] \<and>
   (\<exists>a'. load_feeds sample_env (init_app (ustr ''feeds.txt'')) = Inr a' \<and>
      sorted_wrt (\<lambda>x y. date x \<ge> date y) (stories a') \<and>
      mset (stories a') = mset (concat (map (try_url sample_env []) [url_a, url_b, url_c])) \<and>
      (\<forall>t. filter (\<lambda>s. date s = t) (stories a') =
           filter (\<lambda>s. date s = t) (concat (map (try_url sample_env []) [url_a, url_b, url_c]))))"
proof -
  let ?f = "[url_a @ [10], [10], url_b @ [10], [32, 32] @ url_c @ [10]]"
  have h1: "open_read sample_env (feed_file (init_app (ustr ''feeds.txt''))) = Inr ?f"
    by (simp add: sample_defs)
  have r: "read_urls ?f = [url_a, url_b, url_c]"
    by (simp add: sample_defs run_defs)
  have c: "map title (collect sample_env [url_a, url_b, url_c]) =
             [ustr ''X'', ustr ''C1'', ustr ''C2'']"
    by (simp add: sample_defs run_defs)
  have d: "map date (collect sample_env [url_a, url_b, url_c]) = [753084, 753115, 753115]"
    by (simp add: sample_defs run_defs)
  have h2: "collect sample_env (read_urls ?f) \<noteq> []"
    using c unfolding r by auto
  show ?thesis
    using load_feeds_sorted_stable[OF h1 h2] c d unfolding r by simp
qed

text \<open>
  C4. When the source list is read and the per-source results concatenate to the empty
  list, \<open>load_feeds\<close> leaves the story list and the current index as they were and shows
  the status \<open>No stories found.\<close> on the title widget; nothing else changes.
\<close>

theorem load_feeds_empty_keeps_state:
  assumes "open_read E (feed_file a) = Inr f"
    and "concat (map (try_url E []) (read_urls f)) = []"
  shows "\<exists>a'. load_feeds E a = Inr a' \<and> stories a' = stories a \<and>
           current_index a' = current_index a \<and> auto_timer a' = auto_timer a \<and>
           ui a' = ui a @ [TitleUpdate (ustr ''No stories found.'')]"
proof -
  have "collect E (read_urls f) = []"
    using assms(2) by (simp add: collect_concat)
  from load_feeds_keep[OF assms(1) this] show ?thesis by simp
qed

theorem load_feeds_empty_keeps_state_witness:
  "feedparser_parse sample_env url_b = Inl URLError \<and>
   (\<exists>a'. load_feeds sample_env (sample_app (ustr ''down.txt'')) = Inr a' \<and>
      stories a' = stories (sample_app (ustr ''down.txt'')) \<and>
      current_index a' = 1 \<and>
      ui a' = [TitleUpdate (ustr ''No stories found.'')])"
proof -
  have h1: "open_read sample_env (feed_file (sample_app (ustr ''down.txt''))) = Inr [url_b @ [10]]"
    by (simp add: sample_defs)
  have h2: "concat (map (try_url sample_env []) (read_urls [url_b @ [10]])) = []"
    by (simp add: sample_defs run_defs)
  have b: "feedparser_parse sample_env url_b = Inl URLError"
    by (simp add: sample_defs)
  have s: "current_index (sample_app (ustr ''down.txt'')) = 1"
          "ui (sample_app (ustr ''down.txt'')) = []"
    by (simp_all add: sample_app_def)
  obtain a' where "load_feeds sample_env (sample_app (ustr ''down.txt'')) = Inr a'"
      "stories a' = stories (sample_app (ustr ''down.txt''))"
      "current_index a' = current_index (sample_app (ustr ''down.txt''))"
      "ui a' = ui (sample_app (ustr ''down.txt'')) @ [TitleUpdate (ustr ''No stories found.'')]"
    using load_feeds_empty_keeps_state[OF h1 h2] by blast
  then show ?thesis using b s by simp
qed

text \<open>
  C5 fails on the code. In \<open>broken_feed\<close> the third entry raises: the handler catches the
  exception and the run goes on, but the two stories appended before it stay in the
  collected list, so the failing source does contribute stories.
\<close>

theorem broken_feed_keeps_earlier_stories:
  "feedparser_parse sample_env url_c = Inr broken_feed \<and>
   fst (for_entries sample_env url_c broken_feed (entries broken_feed) []) = Some OverflowError \<and>
   map title (collect sample_env [url_c]) = [ustr ''C1'', ustr ''C2'']"
  by (simp add: sample_defs run_defs)

text \<open>
  C7. The index invariant (a non-empty story list has \<open>0 \<le> current_index < length\<close>)
  holds initially and is kept by every operation, none of which raises from a state that
  satisfies it; \<open>update_display\<close>, \<open>action_next_story\<close> and \<open>action_prev_story\<close> never
  change the story list; whenever \<open>load_feeds\<close> replaces the story list the index is 0
  afterwards; and with an empty story list the three display operations return the state
  as it is, with no call on any widget.
\<close>

theorem rotation_index_invariant:
  assumes "index_ok a"
  shows "(\<exists>a'. update_display a = Inr a' \<and> index_ok a' \<and> stories a' = stories a) \<and>
         (\<exists>a'. action_next_story a = Inr a' \<and> index_ok a' \<and> stories a' = stories a) \<and>
         (\<exists>a'. action_prev_story a = Inr a' \<and> index_ok a' \<and> stories a' = stories a) \<and>
         (\<forall>a'. load_feeds E a = Inr a' \<longrightarrow>
            index_ok a' \<and>
            ((stories a' = stories a \<and> current_index a' = current_index a) \<or>
             current_index a' = 0)) \<and>
         (\<forall>f. open_read E (feed_file a) = Inr f \<and> collect E (read_urls f) \<noteq> [] \<longrightarrow>
            (\<exists>a'. load_feeds E a = Inr a' \<and>
               stories a' = sorted_reverse date (collect E (read_urls f)) \<and>
               current_index a' = 0)) \<and>
         (stories a = [] \<longrightarrow>
            update_display a = Inr a \<and> action_next_story a = Inr a \<and>
            action_prev_story a = Inr a) \<and>
         index_ok (init_app path)"
proof -
  have 1: "\<exists>a'. update_display a = Inr a' \<and> index_ok a' \<and> stories a' = stories a"
    using update_display_ok[OF assms] by blast
  have 4: "\<forall>a'. load_feeds E a = Inr a' \<longrightarrow>
            index_ok a' \<and>
            ((stories a' = stories a \<and> current_index a' = current_index a) \<or>
             current_index a' = 0)"
    using load_feeds_index_ok[OF assms] load_feeds_result by blast
  have 5: "\<forall>f. open_read E (feed_file a) = Inr f \<and> collect E (read_urls f) \<noteq> [] \<longrightarrow>
            (\<exists>a'. load_feeds E a = Inr a' \<and>
               stories a' = sorted_reverse date (collect E (read_urls f)) \<and>
               current_index a' = 0)"
    using load_feeds_replace by blast
  have 6: "stories a = [] \<longrightarrow>
            update_display a = Inr a \<and> action_next_story a = Inr a \<and>
            action_prev_story a = Inr a"
    by (simp add: update_display_def action_next_story_def action_prev_story_def)
  show ?thesis
    using 1 action_next_story_ok[of a] action_prev_story_ok[of a] 4 5 6 index_ok_init
    by blast
qed

theorem rotation_index_invariant_witness:
  "index_ok (sample_app (ustr ''feeds.txt'')) \<and>
   (\<exists>a'. action_next_story (sample_app (ustr ''feeds.txt'')) = Inr a' \<and> index_ok a' \<and>
          current_index a' = 0 \<and> auto_timer a' = Some 1) \<and>
   (\<exists>a'. action_prev_story (sample_app (ustr ''feeds.txt'')) = Inr a' \<and> index_ok a' \<and>
          current_index a' = 0) \<and>
   (\<exists>a'. load_feeds sample_env (sample_app (ustr ''feeds.txt'')) = Inr a' \<and> index_ok a' \<and>
          current_index a' = 0 \<and> length (stories a') = 3) \<and>
   index_ok (init_app (ustr ''feeds.txt'')) \<and>
   action_next_story (init_app (ustr ''feeds.txt'')) = Inr (init_app (ustr ''feeds.txt'')) \<and>
   action_prev_story (init_app (ustr ''feeds.txt'')) = Inr (init_app (ustr ''feeds.txt'')) \<and>
   update_display (init_app (ustr ''feeds.txt'')) = Inr (init_app (ustr ''feeds.txt''))"
proof -
  let ?a = "sample_app (ustr ''feeds.txt'')"
  let ?i = "init_app (ustr ''feeds.txt'')"
  have h: "index_ok ?a" by (simp add: index_ok_def sample_app_def)
  have hi: "index_ok ?i" by (simp add: index_ok_def init_app_def)
  have e: "stories ?i = []" by (simp add: init_app_def)
  note A = rotation_index_invariant[OF h, of sample_env "ustr ''feeds.txt''"]
  note I = rotation_index_invariant[OF hi, of sample_env "ustr ''feeds.txt''"]
  have n: "\<exists>a'. action_next_story ?a = Inr a' \<and> current_index a' = 0 \<and> auto_timer a' = Some 1"
    by (simp add: action_next_story_def update_display_def getitem_def timer_reset_def
          sample_app_def)
  have p: "\<exists>a'. action_prev_story ?a = Inr a' \<and> current_index a' = 0"
    by (simp add: action_prev_story_def update_display_def getitem_def timer_reset_def
          sample_app_def)
  have l: "\<exists>a'. load_feeds sample_env ?a = Inr a' \<and> current_index a' = 0 \<and>
             length (stories a') = 3"
    by (simp add: load_feeds_def update_display_def getitem_def sorted_reverse_def
          sample_defs run_defs)
  show ?thesis using A I h hi e n p l by (metis sum.inject(2))
qed

text \<open>
  C8 (as amended). When the source-list file does not exist, \<open>load_feeds\<close> does not raise:
  it shows \<open>Error: feeds.txt not found\<close> on the title widget and returns at once, leaving
  the story list, the index and the timer as they were, which is also what a run over an
  empty source list leaves of them.
\<close>

theorem load_feeds_file_not_found:
  assumes "open_read E (feed_file a) = Inl FileNotFoundError"
    and "open_read E' (feed_file a) = Inr []"
  shows "\<exists>a' a''. load_feeds E a = Inr a' \<and> load_feeds E' a = Inr a'' \<and>
           ui a' = ui a @ [TitleUpdate (ustr ''Error: feeds.txt not found'')] \<and>
           stories a' = stories a \<and> current_index a' = current_index a \<and>
           auto_timer a' = auto_timer a \<and>
           stories a' = stories a'' \<and> current_index a' = current_index a'' \<and>
           auto_timer a' = auto_timer a''"
proof -
  have "collect E' (read_urls []) = []"
    by (simp add: collect_def read_urls_def)
  from load_feeds_keep[OF assms(2) this] load_feeds_not_found[OF assms(1)]
  show ?thesis by simp
qed

theorem load_feeds_file_not_found_witness:
  "open_read sample_env (ustr ''missing.txt'') = Inl FileNotFoundError \<and>
   (\<exists>a'. load_feeds sample_env (sample_app (ustr ''missing.txt'')) = Inr a' \<and>
      ui a' = [TitleUpdate (ustr ''Error: feeds.txt not found'')] \<and>
      stories a' = stories (sample_app (ustr ''missing.txt'')) \<and>
      current_index a' = 1)"
proof -
  let ?a = "sample_app (ustr ''missing.txt'')"
  have h1: "open_read sample_env (feed_file ?a) = Inl FileNotFoundError"
    by (simp add: sample_defs)
  have h2: "open_read (sample_env\<lparr>open_read := \<lambda>p. Inr []\<rparr>) (feed_file ?a) = Inr []"
    by simp
  have s: "feed_file ?a = ustr ''missing.txt''" "current_index ?a = 1" "ui ?a = []"
    by (simp_all add: sample_app_def)
  show ?thesis
    using load_feeds_file_not_found[OF h1 h2] h1 s by auto
qed

text \<open>
  C8 as stated fails: a source-list file that exists and cannot be read raises
  \<open>PermissionError\<close>, which \<open>except FileNotFoundError\<close> does not catch, so the run ends
  with the exception.
\<close>

theorem load_feeds_unreadable_counterexample:
  "open_read sample_env (ustr ''locked.txt'') = Inl PermissionError \<and>
   load_feeds sample_env (init_app (ustr ''locked.txt'')) = Inl PermissionError"
  by (simp add: load_feeds_def sample_defs)

text \<open>
  C6 (as amended). \<open>clean_html\<close> has no handler of its own: when the parser raises on a
  non-empty markup, the exception leaves \<open>clean_html\<close>, which therefore does not return
  what it returns for absent content. The handler of \<open>load_feeds\<close> around each source
  catches it: the entry is skipped together with the entries after it in that feed, the
  stories collected so far are kept, and \<open>load_feeds\<close> itself, once the source list is
  read, returns without raising.
\<close>

theorem clean_html_parse_failure_raises:
  assumes "html_content \<noteq> []" and "BeautifulSoup E html_content = Inl e"
  shows "clean_html E (Some html_content) = Inl e \<and>
         clean_html E (Some html_content) \<noteq> clean_html E None \<and>
         (\<forall>en url parsed es acc.
            raw_content_of en = Inr html_content \<longrightarrow>
              make_story E url parsed en = Inl e \<and>
              for_entries E url parsed (en # es) acc = (Some e, acc)) \<and>
         (\<forall>en url parsed es acc.
            feedparser_parse E url = Inr parsed \<and> entries parsed = en # es \<and>
            raw_content_of en = Inr html_content \<longrightarrow>
              try_url E acc url = acc) \<and>
         (\<forall>(a::app) f. open_read E (feed_file a) = Inr f \<longrightarrow> (\<exists>a'. load_feeds E a = Inr a'))"
proof -
  have 1: "clean_html E (Some html_content) = Inl e"
    using assms by simp
  have 2: "\<And>en url parsed. raw_content_of en = Inr html_content \<Longrightarrow>
             make_story E url parsed en = Inl e"
    using 1 by (simp add: make_story_def)
  have 3: "\<forall>en url parsed es acc.
            raw_content_of en = Inr html_content \<longrightarrow>
              make_story E url parsed en = Inl e \<and>
              for_entries E url parsed (en # es) acc = (Some e, acc)"
    using 2 by simp
  have 4: "\<forall>en url parsed es acc.
            feedparser_parse E url = Inr parsed \<and> entries parsed = en # es \<and>
            raw_content_of en = Inr html_content \<longrightarrow>
              try_url E acc url = acc"
    using 2 by (simp add: try_url_def)
  have 5: "\<forall>(a::app) f. open_read E (feed_file a) = Inr f \<longrightarrow> (\<exists>a'. load_feeds E a = Inr a')"
  proof (intro allI impI)
    fix a :: app and f
    assume r: "open_read E (feed_file a) = Inr f"
    show "\<exists>a'. load_feeds E a = Inr a'"
    proof (cases "collect E (read_urls f) = []")
      case True
      then show ?thesis using load_feeds_keep[OF r] by simp
    next
      case False
      then show ?thesis using load_feeds_replace[OF r] by blast
    qed
  qed
  show ?thesis using 1 3 4 5 by simp
qed

theorem clean_html_parse_failure_raises_witness:
  "hello_markup \<noteq> [] \<and>
   BeautifulSoup no_lxml_env hello_markup = Inl FeatureNotFound \<and>
   clean_html no_lxml_env (Some hello_markup) = Inl FeatureNotFound \<and>
   try_url no_lxml_env [] url_a = [] \<and>
   load_feeds no_lxml_env (init_app (ustr ''feeds.txt'')) =
     Inr ((init_app (ustr ''feeds.txt''))\<lparr>ui := [TitleUpdate (ustr ''No stories found.'')]\<rparr>)"
proof -
  have h1: "hello_markup \<noteq> []" by (simp add: sample_defs)
  have h2: "BeautifulSoup no_lxml_env hello_markup = Inl FeatureNotFound"
    by (simp add: sample_defs)
  note T = clean_html_parse_failure_raises[OF h1 h2]
  have f: "feedparser_parse no_lxml_env url_a =
             Inr \<lparr>feed_title = Some (ustr ''Feed A''),
                  entries = [item ''X'' hello_markup [2024, 5, 1, 12, 0, 0, 2, 122, 0]]\<rparr>"
    by (simp add: sample_defs)
  have r: "raw_content_of (item ''X'' hello_markup [2024, 5, 1, 12, 0, 0, 2, 122, 0]) =
             Inr hello_markup"
    by (simp add: raw_content_of_def item_def)
  have u: "try_url no_lxml_env [] url_a = []"
    using T f r by simp
  have l: "load_feeds no_lxml_env (init_app (ustr ''feeds.txt'')) =
     Inr ((init_app (ustr ''feeds.txt''))\<lparr>ui := [TitleUpdate (ustr ''No stories found.'')]\<rparr>)"
    by (simp add: load_feeds_def sample_defs run_defs)
  show ?thesis using h1 h2 T u l by simp
qed

text \<open>
  C6 as stated fails: where the constructor of the parser raises, \<open>clean_html\<close> raises too
  and does not return what it returns for absent content.
\<close>

theorem clean_html_parse_failure_counterexample:
  "BeautifulSoup no_lxml_env hello_markup = Inl FeatureNotFound \<and>
   clean_html no_lxml_env (Some hello_markup) = Inl FeatureNotFound \<and>
   clean_html no_lxml_env None = Inr no_content"
  by (simp add: sample_defs)

end
